theory Spec2Isabelle
  imports Complex_Main "HOL-Library.Word" "HOL-Library.AList"
begin

unbundle bit_operations_syntax

text \<open>
  The device session (class \<open>Yeelight\<close>: sending commands, framing and dispatching
  inbound lines, timeouts, closing) and the discovery scan (class \<open>Discovery\<close>: cache
  seeding and parsing of responses), as functions on explicit states. What the platform
  supplies (\<open>JSON.parse\<close>, \<open>parseInt\<close>) is a parameter; what the session does to the
  outside is recorded in a list of effects.
\<close>

section \<open>JavaScript values\<close>

text \<open>
  A JavaScript string is a sequence of UTF-16 code units. String literals of the source are
  written \<open>js ''...''\<close>.
\<close>

type_synonym jsstring = "16 word list"

definition js :: "string \<Rightarrow> jsstring" where
  "js s = map of_char s"

text \<open>
  The values \<open>JSON.parse\<close> returns. A number is a rational (every finite double is one);
  an object is its list of own properties.
\<close>

datatype json =
    JNull
  | JBool bool
  | JNum rat
  | JStr jsstring
  | JArr "json list"
  | JObj "(jsstring \<times> json) list"

text \<open>
  \<open>JSON.parse\<close> belongs to the platform, so the session takes it as a parameter:
  \<open>None\<close> when it throws (a SyntaxError).
\<close>

type_synonym parser = "jsstring \<Rightarrow> json option"

section \<open>types: CommandOptions and YeelightError\<close>

record CommandOptions =
  cmd_id :: nat
  cmd_method :: jsstring
  cmd_params :: "json list"

text \<open>
  \<open>new YeelightError(message, code, command)\<close>; an argument that is left out or
  \<open>undefined\<close> is \<open>None\<close>.
\<close>

datatype YeelightError =
  YeelightError (message: "json option") (code: "json option") (command: "CommandOptions option")

text \<open>The errors the session raises, under the names of the error taxonomy.\<close>

definition NotConnected :: YeelightError where
  "NotConnected = YeelightError (Some (JStr (js ''Not connected to device''))) None None"

definition ConnectionClosed :: YeelightError where
  "ConnectionClosed = YeelightError (Some (JStr (js ''Connection closed''))) None None"

definition CommandTimeout :: "CommandOptions \<Rightarrow> YeelightError" where
  "CommandTimeout c = YeelightError (Some (JStr (js ''Command timeout''))) None (Some c)"

definition SendFailure :: "jsstring \<Rightarrow> CommandOptions \<Rightarrow> YeelightError" where
  "SendFailure msg c =
     YeelightError (Some (JStr (js ''Failed to send command: '' @ msg))) None (Some c)"

definition BrightnessValidationError :: YeelightError where
  "BrightnessValidationError =
     YeelightError (Some (JStr (js ''Brightness must be between 1 and 100''))) None None"

text \<open>
  The four range checks of the setters are the only places that raise for a
  caller-supplied parameter.
\<close>

definition isValidationError :: "YeelightError \<Rightarrow> bool" where
  "isValidationError e \<longleftrightarrow>
     message e \<in> set (map (\<lambda>m. Some (JStr (js m)))
       [''Brightness must be between 1 and 100'',
        ''Color temperature must be between 1700 and 6500K'',
        ''Hue must be between 0 and 359'',
        ''Saturation must be between 0 and 100''])"

section \<open>The session: class Yeelight\<close>

text \<open>
  What the session does to the outside world, in the order it does it: events emitted to
  subscribers, lines written to the socket (\<open>SocketWrite c\<close> is
  \<open>socket.write(JSON.stringify(c) + "\r\n", callback)\<close>), promises of commands settled,
  and calls of \<open>options.logger.error\<close>. The promise of a command is named by the
  command's id.
\<close>

datatype js_exception = SyntaxError | TypeError

datatype effect =
    EmitConnected
  | EmitDisconnected
  | EmitError
  | EmitNotification json
  | SocketWrite CommandOptions
  | Resolve nat json
  | Reject nat YeelightError
  | LoggerError js_exception

text \<open>
  The fields of the class, the timers armed by \<open>setTimeout\<close> in \<open>sendCommand\<close> (a timer
  is named by the command its callback captured), and the effects so far.
  \<open>socket\<close> is \<open>this.socket !== null\<close>. \<open>commandQueue\<close> is a JavaScript \<open>Map\<close>: an
  association list in insertion order, where \<open>set\<close> is \<open>AList.update\<close>, \<open>delete\<close> is
  \<open>AList.delete\<close> and \<open>get\<close> is \<open>map_of\<close>. An entry's \<open>resolve\<close> and \<open>reject\<close>
  closures are fixed by its command: they clear the command's timer and settle its promise.
  Naming timers and promises by their command tells them apart as long as the commands of
  the session have different ids, that is, while the counter is below \<open>2^53\<close>.
\<close>

record yeelight =
  socket :: bool
  messageId :: nat
  connected :: bool
  commandQueue :: "(nat \<times> CommandOptions) list"
  buffer :: jsstring
  timers :: "CommandOptions list"
  effects :: "effect list"

definition new_Yeelight :: yeelight where
  "new_Yeelight = \<lparr>socket = False, messageId = 0, connected = False, commandQueue = [],
     buffer = [], timers = [], effects = []\<rparr>"

text \<open>
  \<open>++this.messageId\<close> on a JavaScript number: exact below \<open>2^53\<close>; at \<open>2^53\<close> the sum
  \<open>2^53 + 1\<close> rounds back to \<open>2^53\<close>, and the counter stays there.
\<close>

definition js_increment :: "nat \<Rightarrow> nat" where
  "js_increment n = (if n < 2 ^ 53 then n + 1 else n)"

definition clearTimeout :: "CommandOptions \<Rightarrow> yeelight \<Rightarrow> yeelight" where
  "clearTimeout c s = s\<lparr>timers := removeAll c (timers s)\<rparr>"

definition emit :: "effect \<Rightarrow> yeelight \<Rightarrow> yeelight" where
  "emit e s = s\<lparr>effects := effects s @ [e]\<rparr>"

text \<open>
  \<open>sendCommand\<close>: \<open>Inl\<close> is the error thrown before anything is done; \<open>Inr id\<close> is the
  pending promise of the command with that id.
\<close>

definition sendCommand ::
  "jsstring \<Rightarrow> json list \<Rightarrow> yeelight \<Rightarrow> (YeelightError + nat) \<times> yeelight" where
  "sendCommand method params s =
     (if \<not> connected s \<or> \<not> socket s then (Inl NotConnected, s)
      else
        let id = js_increment (messageId s);
            command = \<lparr>cmd_id = id, cmd_method = method, cmd_params = params\<rparr>
        in (Inr id,
            emit (SocketWrite command)
              (s\<lparr>messageId := id,
                 timers := timers s @ [command],
                 commandQueue := AList.update id command (commandQueue s)\<rparr>)))"

definition setBrightness ::
  "rat \<Rightarrow> rat \<Rightarrow> yeelight \<Rightarrow> (YeelightError + nat) \<times> yeelight" where
  "setBrightness brightness duration s =
     (if brightness < 1 \<or> brightness > 100 then (Inl BrightnessValidationError, s)
      else sendCommand (js ''set_bright'')
             [JNum brightness, JStr (js ''smooth''), JNum duration] s)"

text \<open>
  \<open>ToInt32\<close>, applied by \<open><<\<close> and \<open>|\<close> to their operands: truncate towards zero, then
  wrap to 32 bits. The result of \<open>|\<close> is read back as a signed 32-bit integer.
\<close>

definition ToInt32 :: "rat \<Rightarrow> 32 word" where
  "ToInt32 x = word_of_int (if 0 \<le> x then \<lfloor>x\<rfloor> else \<lceil>x\<rceil>)"

definition packRGB :: "rat \<Rightarrow> rat \<Rightarrow> rat \<Rightarrow> int" where
  "packRGB red green blue =
     sint (push_bit 16 (ToInt32 red) OR push_bit 8 (ToInt32 green) OR ToInt32 blue)"

definition setRGB ::
  "rat \<Rightarrow> rat \<Rightarrow> rat \<Rightarrow> rat \<Rightarrow> yeelight \<Rightarrow> (YeelightError + nat) \<times> yeelight" where
  "setRGB red green blue duration s =
     (let rgb = packRGB red green blue
      in sendCommand (js ''set_rgb'') [JNum (of_int rgb), JStr (js ''smooth''), JNum duration] s)"


section \<open>Inbound data: handleData\<close>

text \<open>
  \<open>data.toString()\<close> decodes the bytes of one chunk as UTF-8 (the platform's decoder: an
  ill-formed or truncated sequence becomes U+FFFD, one for each maximal ill-formed part, and
  a code point above U+FFFF becomes a surrogate pair). \<open>utf8_lead\<close> reads a byte where a
  character starts: the code points it yields at once, and the continuation bytes still
  expected (how many, the code point so far, and the range allowed for the next byte).
\<close>

datatype utf8_state = Start | Cont nat nat nat nat

definition utf8_lead :: "nat \<Rightarrow> nat list \<times> utf8_state" where
  "utf8_lead b =
     (if b < 0x80 then ([b], Start)
      else if 0xC2 \<le> b \<and> b \<le> 0xDF then ([], Cont 1 (b - 0xC0) 0x80 0xBF)
      else if 0xE0 \<le> b \<and> b \<le> 0xEF then
        ([], Cont 2 (b - 0xE0) (if b = 0xE0 then 0xA0 else 0x80) (if b = 0xED then 0x9F else 0xBF))
      else if 0xF0 \<le> b \<and> b \<le> 0xF4 then
        ([], Cont 3 (b - 0xF0) (if b = 0xF0 then 0x90 else 0x80) (if b = 0xF4 then 0x8F else 0xBF))
      else ([0xFFFD], Start))"

fun utf8_codepoints :: "utf8_state \<Rightarrow> nat list \<Rightarrow> nat list" where
  "utf8_codepoints Start [] = []"
| "utf8_codepoints (Cont n cp lo hi) [] = [0xFFFD]"
| "utf8_codepoints Start (b # bs) =
     fst (utf8_lead b) @ utf8_codepoints (snd (utf8_lead b)) bs"
| "utf8_codepoints (Cont n cp lo hi) (b # bs) =
     (if lo \<le> b \<and> b \<le> hi then
        (if n = 1 then (cp * 64 + (b - 0x80)) # utf8_codepoints Start bs
         else utf8_codepoints (Cont (n - 1) (cp * 64 + (b - 0x80)) 0x80 0xBF) bs)
      else 0xFFFD # fst (utf8_lead b) @ utf8_codepoints (snd (utf8_lead b)) bs)"

definition utf16 :: "nat \<Rightarrow> nat list" where
  "utf16 cp =
     (if cp < 0x10000 then [cp]
      else [0xD800 + (cp - 0x10000) div 0x400, 0xDC00 + (cp - 0x10000) mod 0x400])"

definition toString :: "8 word list \<Rightarrow> jsstring" where
  "toString data = map of_nat (concat (map utf16 (utf8_codepoints Start (map unat data))))"

text \<open>\<open>s.indexOf(c)\<close> for a one-character \<open>c\<close>: \<open>None\<close> is \<open>-1\<close>.\<close>

definition indexOf :: "'a list \<Rightarrow> 'a \<Rightarrow> nat option" where
  "indexOf xs c = (if c \<in> set xs then Some (length (takeWhile (\<lambda>x. x \<noteq> c) xs)) else None)"

definition newline :: "16 word" where
  "newline = 10"

text \<open>
  \<open>key in v\<close>, for the keys the session asks for (\<open>method\<close>, \<open>id\<close>, \<open>error\<close>): a TypeError
  (\<open>None\<close>) unless \<open>v\<close> is an object or an array, and no array has one of these keys.
  \<open>v.key\<close>, for the keys \<open>id\<close>, \<open>error\<close>, \<open>message\<close> and \<open>code\<close>: a TypeError on \<open>null\<close>,
  the property of an object, and \<open>undefined\<close> (\<open>Inr None\<close>) on every other value.
\<close>

definition in_op :: "jsstring \<Rightarrow> json \<Rightarrow> bool option" where
  "in_op key v =
     (case v of
        JObj kvs \<Rightarrow> Some (map_of kvs key \<noteq> None)
      | JArr _ \<Rightarrow> Some False
      | _ \<Rightarrow> None)"

definition getProp :: "json \<Rightarrow> jsstring \<Rightarrow> js_exception + json option" where
  "getProp v key =
     (case v of
        JNull \<Rightarrow> Inl TypeError
      | JObj kvs \<Rightarrow> Inr (map_of kvs key)
      | _ \<Rightarrow> Inr None)"

text \<open>
  \<open>commandQueue.get(v)\<close> for an arbitrary value \<open>v\<close>: the keys are numbers, and a key
  matches exactly the number equal to it.
\<close>

definition queue_get ::
  "(nat \<times> CommandOptions) list \<Rightarrow> json option \<Rightarrow> (nat \<times> CommandOptions) option" where
  "queue_get q v = find (\<lambda>(k, c). v = Some (JNum (of_nat k))) q"

text \<open>The \<open>resolve\<close> and \<open>reject\<close> closures stored in the queue entry of a command.\<close>

definition resolve :: "CommandOptions \<Rightarrow> json \<Rightarrow> yeelight \<Rightarrow> yeelight" where
  "resolve c v s = emit (Resolve (cmd_id c) v) (clearTimeout c s)"

definition reject :: "CommandOptions \<Rightarrow> YeelightError \<Rightarrow> yeelight \<Rightarrow> yeelight" where
  "reject c e s = emit (Reject (cmd_id c) e) (clearTimeout c s)"

text \<open>The branch \<open>"id" in response\<close> of \<open>handleData\<close>.\<close>

definition handleResponse :: "json \<Rightarrow> yeelight \<Rightarrow> yeelight" where
  "handleResponse response s =
     (case getProp response (js ''id'') of
        Inl ex \<Rightarrow> emit (LoggerError ex) s
      | Inr response_id \<Rightarrow>
          (case queue_get (commandQueue s) response_id of
             None \<Rightarrow> s
           | Some (k, entry) \<Rightarrow>
               let s1 = s\<lparr>commandQueue := AList.delete k (commandQueue s)\<rparr> in
               (case in_op (js ''error'') response of
                  None \<Rightarrow> emit (LoggerError TypeError) s1
                | Some True \<Rightarrow>
                    (case getProp response (js ''error'') of
                       Inl ex \<Rightarrow> emit (LoggerError ex) s1
                     | Inr None \<Rightarrow> emit (LoggerError TypeError) s1
                     | Inr (Some err) \<Rightarrow>
                         (case (getProp err (js ''message''), getProp err (js ''code'')) of
                            (Inr msg, Inr cd) \<Rightarrow>
                              reject entry (YeelightError msg cd (Some entry)) s1
                          | _ \<Rightarrow> emit (LoggerError TypeError) s1))
                | Some False \<Rightarrow> resolve entry response s1)))"

text \<open>The body of the \<open>while\<close> loop for one line: the \<open>try\<close> block and its \<open>catch\<close>.\<close>

definition handleLine :: "parser \<Rightarrow> jsstring \<Rightarrow> yeelight \<Rightarrow> yeelight" where
  "handleLine parse line s =
     (case parse line of
        None \<Rightarrow> emit (LoggerError SyntaxError) s
      | Some response \<Rightarrow>
          (case in_op (js ''method'') response of
             None \<Rightarrow> emit (LoggerError TypeError) s
           | Some True \<Rightarrow> emit (EmitNotification response) s
           | Some False \<Rightarrow>
               (case in_op (js ''id'') response of
                  None \<Rightarrow> emit (LoggerError TypeError) s
                | Some True \<Rightarrow> handleResponse response s
                | Some False \<Rightarrow> s)))"

lemma buffer_handleResponse: "buffer (handleResponse response s) = buffer s"
  by (simp add: handleResponse_def emit_def reject_def resolve_def clearTimeout_def Let_def
      split: sum.splits option.splits prod.splits bool.splits)

lemma buffer_handleLine: "buffer (handleLine parse line s) = buffer s"
  by (simp add: handleLine_def emit_def buffer_handleResponse
      split: option.splits bool.splits)

lemma takeWhile_shorter: "c \<in> set xs \<Longrightarrow> length (takeWhile (\<lambda>x. x \<noteq> c) xs) < length xs"
  by (induction xs) auto

lemma indexOf_less: "indexOf xs c = Some i \<Longrightarrow> i < length xs"
  by (auto simp: indexOf_def takeWhile_shorter split: if_splits)

text \<open>The \<open>while\<close> loop of \<open>handleData\<close>: one round for each newline in the buffer.\<close>

function handleData_loop :: "parser \<Rightarrow> yeelight \<Rightarrow> yeelight" where
  "handleData_loop parse s =
     (case indexOf (buffer s) newline of
        None \<Rightarrow> s
      | Some newlineIndex \<Rightarrow>
          handleData_loop parse
            (handleLine parse (take newlineIndex (buffer s))
               (s\<lparr>buffer := drop (newlineIndex + 1) (buffer s)\<rparr>)))"
  by pat_completeness auto
termination
  by (relation "measure (\<lambda>(parse, s). length (buffer s))")
     (auto simp: buffer_handleLine dest: indexOf_less)

declare handleData_loop.simps [simp del]

text \<open>\<open>handleText\<close> is \<open>handleData\<close> after its chunk has been decoded.\<close>

definition handleText :: "parser \<Rightarrow> jsstring \<Rightarrow> yeelight \<Rightarrow> yeelight" where
  "handleText parse text s = handleData_loop parse (s\<lparr>buffer := buffer s @ text\<rparr>)"

definition handleData :: "parser \<Rightarrow> 8 word list \<Rightarrow> yeelight \<Rightarrow> yeelight" where
  "handleData parse data s = handleText parse (toString data) s"

section \<open>Transport events, timers and the session's life\<close>

text \<open>\<open>handleError\<close>, with a listener registered for the \<open>error\<close> event.\<close>

definition handleError :: "yeelight \<Rightarrow> yeelight" where
  "handleError s = (emit EmitError s)\<lparr>connected := False\<rparr>"

definition handleClose :: "yeelight \<Rightarrow> yeelight" where
  "handleClose s =
     (let s1 = emit EmitDisconnected (s\<lparr>connected := False\<rparr>);
          s2 = fold (\<lambda>(k, entry). reject entry ConnectionClosed) (commandQueue s1) s1
      in s2\<lparr>commandQueue := []\<rparr>)"

text \<open>
  The callback \<open>sendCommand\<close> hands to \<open>setTimeout\<close>, run when the deadline of command \<open>c\<close>
  elapses (the timer has fired, so it is armed no longer), and the callback it hands to
  \<open>socket.write\<close>, run with an error whose message is \<open>msg\<close>.
\<close>

definition commandTimeout :: "CommandOptions \<Rightarrow> yeelight \<Rightarrow> yeelight" where
  "commandTimeout c s =
     emit (Reject (cmd_id c) (CommandTimeout c))
       (s\<lparr>commandQueue := AList.delete (cmd_id c) (commandQueue s),
          timers := removeAll c (timers s)\<rparr>)"

definition writeFailed :: "CommandOptions \<Rightarrow> jsstring \<Rightarrow> yeelight \<Rightarrow> yeelight" where
  "writeFailed c msg s =
     emit (Reject (cmd_id c) (SendFailure msg c))
       (clearTimeout c (s\<lparr>commandQueue := AList.delete (cmd_id c) (commandQueue s)\<rparr>))"

text \<open>
  \<open>connect()\<close> up to the call of \<open>socket.connect\<close>, the socket's \<open>connect\<close> event, and
  \<open>disconnect()\<close>. The promise and the timer of \<open>connect()\<close> are not followed.
\<close>

definition connect :: "yeelight \<Rightarrow> yeelight" where
  "connect s = (if connected s then s else s\<lparr>socket := True\<rparr>)"

definition onConnect :: "yeelight \<Rightarrow> yeelight" where
  "onConnect s = emit EmitConnected (s\<lparr>connected := True\<rparr>)"

definition disconnect :: "yeelight \<Rightarrow> yeelight" where
  "disconnect s = s\<lparr>socket := False, connected := False\<rparr>"

text \<open>
  Everything that can happen to a session: calls of its methods and callbacks run by the
  event loop. A timer fires only while armed; a write fails only for a command written.
\<close>

datatype event =
    CallConnect
  | SocketConnect
  | CallDisconnect
  | CallSend jsstring "json list"
  | SocketData "8 word list"
  | SocketError
  | SocketClose
  | TimerFires CommandOptions
  | WriteFails CommandOptions jsstring

fun step :: "parser \<Rightarrow> event \<Rightarrow> yeelight \<Rightarrow> yeelight" where
  "step parse CallConnect s = connect s"
| "step parse SocketConnect s = onConnect s"
| "step parse CallDisconnect s = disconnect s"
| "step parse (CallSend method params) s = snd (sendCommand method params s)"
| "step parse (SocketData data) s = handleData parse data s"
| "step parse SocketError s = handleError s"
| "step parse SocketClose s = handleClose s"
| "step parse (TimerFires c) s = (if c \<in> set (timers s) then commandTimeout c s else s)"
| "step parse (WriteFails c msg) s =
     (if SocketWrite c \<in> set (effects s) then writeFailed c msg s else s)"

definition run :: "parser \<Rightarrow> event list \<Rightarrow> yeelight \<Rightarrow> yeelight" where
  "run parse evs s = fold (step parse) evs s"

text \<open>The commands written to the socket, in order, and their ids.\<close>

definition writes :: "effect list \<Rightarrow> CommandOptions list" where
  "writes es = concat (map (\<lambda>e. case e of SocketWrite c \<Rightarrow> [c] | _ \<Rightarrow> []) es)"

definition allocated_ids :: "yeelight \<Rightarrow> nat list" where
  "allocated_ids s = map cmd_id (writes (effects s))"


section \<open>Discovery\<close>

record DeviceInfo =
  ip :: jsstring
  port :: "rat option"
  device_id :: "jsstring option"
  model :: "jsstring option"
  name :: "jsstring option"
  firmware :: "jsstring option"
  support :: "jsstring list option"
  device_power :: "jsstring option"

text \<open>
  In \<open>port\<close>, \<open>None\<close> is \<open>NaN\<close>. The regular expressions of \<open>parseResponse\<close> and
  \<open>extractValue\<close> all have the shape \<open>/KEY: ([^\r\n]+)/i\<close>. \<open>regex_header key text\<close> is
  the first capture group of the leftmost match, \<open>None\<close> when there is no match. With the
  flag \<open>i\<close> an ASCII letter of the pattern matches both of its cases and nothing else.
\<close>

definition lower :: "16 word \<Rightarrow> 16 word" where
  "lower c = (if 0x41 \<le> c \<and> c \<le> 0x5A then c + 0x20 else c)"

definition capture :: "jsstring \<Rightarrow> jsstring" where
  "capture text = takeWhile (\<lambda>c. c \<noteq> 0x0D \<and> c \<noteq> 0x0A) text"

fun regex_header :: "jsstring \<Rightarrow> jsstring \<Rightarrow> jsstring option" where
  "regex_header key [] = None"
| "regex_header key (c # cs) =
     (let n = length key + 2 in
      if map lower (take n (c # cs)) = map lower (key @ js '': '') \<and> capture (drop n (c # cs)) \<noteq> []
      then Some (capture (drop n (c # cs)))
      else regex_header key cs)"

text \<open>
  \<open>text.includes(pat)\<close>, \<open>text.replace(pat, "")\<close> for a non-empty \<open>pat\<close>, and
  \<open>text.split(sep)\<close> for a one-character \<open>sep\<close>.
\<close>

fun js_includes :: "jsstring \<Rightarrow> jsstring \<Rightarrow> bool" where
  "js_includes [] pat = (pat = [])"
| "js_includes (c # cs) pat = (take (length pat) (c # cs) = pat \<or> js_includes cs pat)"

fun remove_first :: "jsstring \<Rightarrow> jsstring \<Rightarrow> jsstring" where
  "remove_first pat [] = []"
| "remove_first pat (c # cs) =
     (if take (length pat) (c # cs) = pat then drop (length pat) (c # cs)
      else c # remove_first pat cs)"

fun split :: "16 word \<Rightarrow> jsstring \<Rightarrow> jsstring list" where
  "split sep [] = [[]]"
| "split sep (c # cs) =
     (if c = sep then [] # split sep cs
      else (case split sep cs of
              [] \<Rightarrow> [[c]]
            | part # parts \<Rightarrow> (c # part) # parts))"

definition extractValue :: "jsstring \<Rightarrow> jsstring \<Rightarrow> jsstring option" where
  "extractValue response key = regex_header key response"

text \<open>
  \<open>devices\<close> is a \<open>Map\<close> from ip to record, in insertion order. \<open>parseInt\<close> belongs to
  the platform and is a parameter; its argument is \<open>None\<close> when the location has no colon.
\<close>

definition parseResponse ::
  "(jsstring option \<Rightarrow> rat option) \<Rightarrow> jsstring \<Rightarrow> (jsstring \<times> DeviceInfo) list
     \<Rightarrow> (jsstring \<times> DeviceInfo) list" where
  "parseResponse parseInt response devices =
     (case regex_header (js ''Location'') response of
        None \<Rightarrow> devices
      | Some location \<Rightarrow>
          let parts = split 0x3A (remove_first (js ''yeelight://'') location);
              ip = hd parts;
              port = (if 1 < length parts then Some (parts ! 1) else None)
          in if map_of devices ip = None
             then
               let device = \<lparr>ip = ip, port = parseInt port,
                     device_id = extractValue response (js ''id''),
                     model = extractValue response (js ''model''),
                     name = extractValue response (js ''name''),
                     firmware = extractValue response (js ''fw_ver''),
                     support = map_option (split 0x20) (extractValue response (js ''support'')),
                     device_power = extractValue response (js ''power'')\<rparr>
               in AList.update ip device devices
             else devices)"

text \<open>
  \<open>discover\<close>. \<open>cachedDevices\<close> is what \<open>loadCache()\<close> returns; \<open>messages\<close> are the
  datagrams (as text) that the sockets deliver before the timeout, in order of arrival.
  \<open>onMessage\<close> is the listener for \<open>message\<close>, and \<open>seedCache\<close> the block under
  \<open>if (useCache)\<close>. The result is \<open>Array.from(devices.values())\<close>.
\<close>

definition onMessage ::
  "(jsstring option \<Rightarrow> rat option) \<Rightarrow> jsstring \<Rightarrow> (jsstring \<times> DeviceInfo) list
     \<Rightarrow> (jsstring \<times> DeviceInfo) list" where
  "onMessage parseInt response devices =
     (if js_includes response (js ''yeelight'') then parseResponse parseInt response devices
      else devices)"

definition seedCache :: "bool \<Rightarrow> DeviceInfo list \<Rightarrow> (jsstring \<times> DeviceInfo) list" where
  "seedCache useCache cachedDevices =
     (if useCache then fold (\<lambda>device devices. AList.update (ip device) device devices) cachedDevices []
      else [])"

definition discover ::
  "(jsstring option \<Rightarrow> rat option) \<Rightarrow> bool \<Rightarrow> DeviceInfo list \<Rightarrow> jsstring list
     \<Rightarrow> DeviceInfo list" where
  "discover parseInt useCache cachedDevices messages =
     map snd (fold (onMessage parseInt) messages (seedCache useCache cachedDevices))"

text \<open>The record a datagram yields when no record for its ip is present yet.\<close>

definition liveRecord :: "(jsstring option \<Rightarrow> rat option) \<Rightarrow> jsstring \<Rightarrow> DeviceInfo option" where
  "liveRecord parseInt response =
     (case onMessage parseInt response [] of [] \<Rightarrow> None | (k, device) # _ \<Rightarrow> Some device)"

section \<open>Sample sessions\<close>

text \<open>A parser that rejects every line, and a connected session with two commands pending.\<close>

definition parse_none :: parser where
  "parse_none line = None"

definition get_prop_1 :: CommandOptions where
  "get_prop_1 = \<lparr>cmd_id = 1, cmd_method = js ''get_prop'', cmd_params = []\<rparr>"

definition toggle_2 :: CommandOptions where
  "toggle_2 = \<lparr>cmd_id = 2, cmd_method = js ''toggle'', cmd_params = []\<rparr>"

definition two_pending :: yeelight where
  "two_pending =
     \<lparr>socket = True, messageId = 2, connected = True,
      commandQueue = [(1, get_prop_1), (2, toggle_2)], buffer = [],
      timers = [get_prop_1, toggle_2],
      effects = [EmitConnected, SocketWrite get_prop_1, SocketWrite toggle_2]\<rparr>"

text \<open>
  A parser for lines of the form \<open>{"method":"NAME"}\<close> with a plain \<open>NAME\<close>, and one for a
  few literals; on these lines both agree with \<open>JSON.parse\<close>. \<open>ascii\<close> gives the bytes of
  an ASCII text.
\<close>

definition ascii :: "string \<Rightarrow> 8 word list" where
  "ascii s = map of_char s"

definition parse_method_only :: parser where
  \<open>parse_method_only line =
     (let n = length line in
      if 13 \<le> n \<and> take 11 line = js ''{"method":"'' \<and> drop (n - 2) line = js ''"}''
      then Some (JObj [(js ''method'', JStr (take (n - 13) (drop 11 line)))])
      else None)\<close>

definition parse_literals :: parser where
  "parse_literals line =
     (if line = js ''{}'' then Some (JObj [])
      else if line = js ''[]'' then Some (JArr [])
      else if line = js ''null'' then Some JNull
      else if line = js ''1'' then Some (JNum 1)
      else None)"

text \<open>
  A cached record and a datagram from the same ip, with the record the datagram carries,
  and a \<open>parseInt\<close> for the port of the datagram.
\<close>

definition crlf :: jsstring where
  "crlf = [0x0D, 0x0A]"

definition cached_bulb :: DeviceInfo where
  "cached_bulb = \<lparr>ip = js ''10.0.0.5'', port = Some 55443, device_id = None, model = None,
     name = Some (js ''cached''), firmware = None, support = None, device_power = None\<rparr>"

definition live_bulb :: DeviceInfo where
  "live_bulb = \<lparr>ip = js ''10.0.0.5'', port = Some 55443, device_id = None, model = None,
     name = Some (js ''live''), firmware = None, support = None, device_power = None\<rparr>"

definition live_response :: jsstring where
  "live_response = js ''Location: yeelight://10.0.0.5:55443'' @ crlf @ js ''name: live'' @ crlf"

definition parseInt_port :: "jsstring option \<Rightarrow> rat option" where
  "parseInt_port text = (if text = Some (js ''55443'') then Some 55443 else None)"

section \<open>Notions used in the statements\<close>

text \<open>
  A parsed line that is no object (so that \<open>in\<close> throws), and one that is an object or
  array with neither a \<open>method\<close> nor an \<open>id\<close> key.
\<close>

definition is_primitive :: "json \<Rightarrow> bool" where
  "is_primitive v = (case v of JObj _ \<Rightarrow> False | JArr _ \<Rightarrow> False | _ \<Rightarrow> True)"

definition neither_shape :: "json \<Rightarrow> bool" where
  "neither_shape v =
     (case v of
        JObj kvs \<Rightarrow> map_of kvs (js ''method'') = None \<and> map_of kvs (js ''id'') = None
      | JArr _ \<Rightarrow> True
      | _ \<Rightarrow> False)"

text \<open>
  \<open>sends_nothing s s'\<close>: from \<open>s\<close> to \<open>s'\<close> no id was allocated, no command written,
  and the pending table has only lost entries. \<open>ids_inv\<close> is the invariant of the id
  counter, \<open>queue_wf\<close> that of the pending table: one entry for an id, each stored under
  the id of its command.
  \<open>keyed\<close>: every record of a device map is stored under its own ip.
\<close>

definition filtered :: "'a list \<Rightarrow> 'a list \<Rightarrow> bool" where
  "filtered q q' \<longleftrightarrow> (\<exists>P. q' = filter P q)"

definition sends_nothing :: "yeelight \<Rightarrow> yeelight \<Rightarrow> bool" where
  "sends_nothing s s' \<longleftrightarrow>
     messageId s' = messageId s \<and> allocated_ids s' = allocated_ids s \<and>
     filtered (commandQueue s) (commandQueue s')"

definition queue_wf :: "yeelight \<Rightarrow> bool" where
  "queue_wf s \<longleftrightarrow>
     distinct (map fst (commandQueue s)) \<and>
     list_all (\<lambda>(k, entry). cmd_id entry = k) (commandQueue s)"

definition ids_inv :: "yeelight \<Rightarrow> bool" where
  "ids_inv s \<longleftrightarrow>
     (messageId s < 2 ^ 53 \<longrightarrow> allocated_ids s = [1..<Suc (messageId s)]) \<and>
     (\<forall>k \<in> set (map fst (commandQueue s)). k \<le> messageId s)"

definition keyed :: "(jsstring \<times> DeviceInfo) list \<Rightarrow> bool" where
  "keyed devices \<longleftrightarrow> list_all (\<lambda>(k, device). ip device = k) devices"

section \<open>Field lemmas\<close>

lemma emit_fields [simp]:
  "effects (emit e s) = effects s @ [e]"
  "connected (emit e s) = connected s"
  "socket (emit e s) = socket s"
  "messageId (emit e s) = messageId s"
  "commandQueue (emit e s) = commandQueue s"
  "buffer (emit e s) = buffer s"
  "timers (emit e s) = timers s"
  by (simp_all add: emit_def)

lemma clearTimeout_fields [simp]:
  "effects (clearTimeout c s) = effects s"
  "connected (clearTimeout c s) = connected s"
  "socket (clearTimeout c s) = socket s"
  "messageId (clearTimeout c s) = messageId s"
  "commandQueue (clearTimeout c s) = commandQueue s"
  "buffer (clearTimeout c s) = buffer s"
  "timers (clearTimeout c s) = removeAll c (timers s)"
  by (simp_all add: clearTimeout_def)

lemma reject_fields [simp]:
  "effects (reject c e s) = effects s @ [Reject (cmd_id c) e]"
  "connected (reject c e s) = connected s"
  "socket (reject c e s) = socket s"
  "messageId (reject c e s) = messageId s"
  "commandQueue (reject c e s) = commandQueue s"
  "buffer (reject c e s) = buffer s"
  "timers (reject c e s) = removeAll c (timers s)"
  by (simp_all add: reject_def)

lemma resolve_fields [simp]:
  "effects (resolve c v s) = effects s @ [Resolve (cmd_id c) v]"
  "connected (resolve c v s) = connected s"
  "socket (resolve c v s) = socket s"
  "messageId (resolve c v s) = messageId s"
  "commandQueue (resolve c v s) = commandQueue s"
  "buffer (resolve c v s) = buffer s"
  "timers (resolve c v s) = removeAll c (timers s)"
  by (simp_all add: resolve_def)

lemma sendCommand_connected:
  "connected s \<Longrightarrow> socket s \<Longrightarrow>
   sendCommand method params s =
     (Inr (js_increment (messageId s)),
      s\<lparr>messageId := js_increment (messageId s),
        timers := timers s @ [\<lparr>cmd_id = js_increment (messageId s), cmd_method = method, cmd_params = params\<rparr>],
        commandQueue := AList.update (js_increment (messageId s))
           \<lparr>cmd_id = js_increment (messageId s), cmd_method = method, cmd_params = params\<rparr> (commandQueue s),
        effects := effects s @ [SocketWrite \<lparr>cmd_id = js_increment (messageId s), cmd_method = method, cmd_params = params\<rparr>]\<rparr>)"
  by (simp add: sendCommand_def emit_def Let_def)

lemma ToInt32_of_int: "ToInt32 (of_int i) = word_of_int i"
  by (simp add: ToInt32_def)

lemma packRGB_primaries:
  "packRGB 255 0 0 = 16711680" "packRGB 0 255 0 = 65280" "packRGB 0 0 255 = 255"
  by (simp_all add: packRGB_def ToInt32_def)

lemma not_validation_NotConnected: "\<not> isValidationError NotConnected"
  by (simp add: isValidationError_def NotConnected_def js_def)

lemma effects_fold_reject:
  "effects (fold (\<lambda>(k, entry). reject entry e) q s) =
   effects s @ map (\<lambda>(k, entry). Reject (cmd_id entry) e) q"
  by (induction q arbitrary: s) (simp_all add: split_beta)

lemma connected_fold_reject:
  "connected (fold (\<lambda>(k, entry). reject entry e) q s) = connected s"
  by (induction q arbitrary: s) (simp_all add: split_beta)

lemma timers_fold_reject:
  "timers (fold (\<lambda>(k, entry). reject entry e) q s) =
   filter (\<lambda>c. c \<notin> snd ` set q) (timers s)"
proof (induction q arbitrary: s)
  case Nil
  then show ?case by simp
next
  case (Cons a q)
  have "filter (\<lambda>c. c \<notin> snd ` set q) (removeAll (snd a) (timers s)) =
        filter (\<lambda>c. c \<notin> snd ` set (a # q)) (timers s)"
    by (induction "timers s" arbitrary: s) (auto simp: removeAll_filter_not_eq intro: filter_cong)
  then show ?case using Cons by (simp add: split_beta)
qed

lemma two_pending_reachable:
  "run parse_none
     [CallConnect, SocketConnect, CallSend (js ''get_prop'') [], CallSend (js ''toggle'') []]
     new_Yeelight = two_pending"
  by (simp add: run_def new_Yeelight_def connect_def onConnect_def sendCommand_def
      js_increment_def Let_def two_pending_def get_prop_1_def toggle_2_def emit_def)

section \<open>Sending commands\<close>

text \<open>
  C7. A \<open>sendCommand\<close> on a session that is not connected fails with NotConnected and
  leaves the session as it was: the id counter keeps its value and nothing is written to
  the socket.
\<close>

theorem sendCommand_not_connected:
  assumes "\<not> connected s"
  shows "sendCommand method params s = (Inl NotConnected, s)
       \<and> messageId (snd (sendCommand method params s)) = messageId s
       \<and> effects (snd (sendCommand method params s)) = effects s"
  using assms by (simp add: sendCommand_def)

theorem sendCommand_not_connected_witness:
  "\<not> connected new_Yeelight
   \<and> sendCommand (js ''set_power'') [] new_Yeelight = (Inl NotConnected, new_Yeelight)
   \<and> messageId (snd (sendCommand (js ''set_power'') [] new_Yeelight)) = 0
   \<and> effects (snd (sendCommand (js ''set_power'') [] new_Yeelight)) = []"
proof -
  have h: "\<not> connected new_Yeelight" by (simp add: new_Yeelight_def)
  show ?thesis
    using h sendCommand_not_connected [OF h, of "js ''set_power''" "[]"]
    by (simp add: new_Yeelight_def)
qed

text \<open>
  C9. \<open>setBrightness\<close> rejects 0 and 101 with the brightness validation error and leaves
  the session untouched, so nothing is written. On a connected session 1 and 100 pass the
  check, and each call writes exactly one command, \<open>set_bright\<close> with the value.
\<close>

theorem setBrightness_bounds:
  "(\<forall>b \<in> {0, 101}. setBrightness b d s = (Inl BrightnessValidationError, s))
   \<and> isValidationError BrightnessValidationError
   \<and> (\<forall>b \<in> {1, 100}. connected s \<and> socket s \<longrightarrow>
        fst (setBrightness b d s) = Inr (js_increment (messageId s)) \<and>
        effects (snd (setBrightness b d s)) =
          effects s @ [SocketWrite \<lparr>cmd_id = js_increment (messageId s),
             cmd_method = js ''set_bright'',
             cmd_params = [JNum b, JStr (js ''smooth''), JNum d]\<rparr>])"
  by (simp add: setBrightness_def isValidationError_def BrightnessValidationError_def
      sendCommand_connected)

theorem setBrightness_bounds_witness:
  "setBrightness 0 500 two_pending = (Inl BrightnessValidationError, two_pending)
   \<and> setBrightness 101 500 two_pending = (Inl BrightnessValidationError, two_pending)
   \<and> connected two_pending \<and> socket two_pending
   \<and> writes (effects (snd (setBrightness 1 500 two_pending))) =
       [get_prop_1, toggle_2,
        \<lparr>cmd_id = 3, cmd_method = js ''set_bright'',
         cmd_params = [JNum 1, JStr (js ''smooth''), JNum 500]\<rparr>]
   \<and> writes (effects (snd (setBrightness 100 500 two_pending))) =
       [get_prop_1, toggle_2,
        \<lparr>cmd_id = 3, cmd_method = js ''set_bright'',
         cmd_params = [JNum 100, JStr (js ''smooth''), JNum 500]\<rparr>]"
proof -
  have h: "connected two_pending \<and> socket two_pending"
    by (simp add: two_pending_def)
  have m: "js_increment (messageId two_pending) = 3"
    by (simp add: two_pending_def js_increment_def)
  have e: "effects two_pending = [EmitConnected, SocketWrite get_prop_1, SocketWrite toggle_2]"
    by (simp add: two_pending_def)
  show ?thesis
    using h setBrightness_bounds [of 500 two_pending]
    by (simp add: m e writes_def)
qed

text \<open>
  C10. \<open>setRGB\<close> has no range check. For all integers \<open>r\<close>, \<open>g\<close>, \<open>b\<close> it never fails
  with a validation error, and on a connected session it writes one \<open>set_rgb\<close> command
  whose colour is \<open>(r << 16) | (g << 8) | b\<close> in 32-bit arithmetic. Components out of range
  run into their neighbours: \<open>(0, 256, 0)\<close> packs to the value of \<open>(1, 0, 0)\<close>.
\<close>

theorem setRGB_no_range_check:
  "(\<forall>e. fst (setRGB (of_int r) (of_int g) (of_int b) d s) = Inl e \<longrightarrow> \<not> isValidationError e)
   \<and> (connected s \<and> socket s \<longrightarrow>
        fst (setRGB (of_int r) (of_int g) (of_int b) d s) = Inr (js_increment (messageId s)) \<and>
        effects (snd (setRGB (of_int r) (of_int g) (of_int b) d s)) =
          effects s @ [SocketWrite \<lparr>cmd_id = js_increment (messageId s),
             cmd_method = js ''set_rgb'',
             cmd_params = [JNum (of_int (sint (push_bit 16 (word_of_int r)
                 OR push_bit 8 (word_of_int g) OR (word_of_int b :: 32 word)))),
               JStr (js ''smooth''), JNum d]\<rparr>])
   \<and> packRGB 0 256 0 = packRGB 1 0 0"
proof -
  have a: "\<forall>e. fst (setRGB (of_int r) (of_int g) (of_int b) d s) = Inl e \<longrightarrow> \<not> isValidationError e"
  proof (cases "connected s \<and> socket s")
    case True
    then show ?thesis by (simp add: setRGB_def sendCommand_connected Let_def)
  next
    case False
    then have "fst (setRGB (of_int r) (of_int g) (of_int b) d s) = Inl NotConnected"
      by (simp add: setRGB_def sendCommand_def)
    then show ?thesis by (simp add: not_validation_NotConnected)
  qed
  have b: "packRGB 0 256 0 = packRGB 1 0 0"
    by (simp add: packRGB_def ToInt32_def)
  have c: "connected s \<and> socket s \<longrightarrow>
        fst (setRGB (of_int r) (of_int g) (of_int b) d s) = Inr (js_increment (messageId s)) \<and>
        effects (snd (setRGB (of_int r) (of_int g) (of_int b) d s)) =
          effects s @ [SocketWrite \<lparr>cmd_id = js_increment (messageId s),
             cmd_method = js ''set_rgb'',
             cmd_params = [JNum (of_int (sint (push_bit 16 (word_of_int r)
                 OR push_bit 8 (word_of_int g) OR (word_of_int b :: 32 word)))),
               JStr (js ''smooth''), JNum d]\<rparr>]"
    by (simp add: setRGB_def sendCommand_connected packRGB_def ToInt32_of_int)
  show ?thesis using a b c by blast
qed

theorem setRGB_no_range_check_witness:
  "connected two_pending \<and> socket two_pending
   \<and> setRGB 0 256 0 500 two_pending \<noteq> (Inl BrightnessValidationError, two_pending)
   \<and> writes (effects (snd (setRGB 0 256 0 500 two_pending))) =
       [get_prop_1, toggle_2,
        \<lparr>cmd_id = 3, cmd_method = js ''set_rgb'',
         cmd_params = [JNum 65536, JStr (js ''smooth''), JNum 500]\<rparr>]"
proof -
  have h: "connected two_pending \<and> socket two_pending"
    by (simp add: two_pending_def)
  have m: "js_increment (messageId two_pending) = 3"
    by (simp add: two_pending_def js_increment_def)
  have e: "effects two_pending = [EmitConnected, SocketWrite get_prop_1, SocketWrite toggle_2]"
    by (simp add: two_pending_def)
  have v: "sint (push_bit 16 (word_of_int 0) OR push_bit 8 (word_of_int 256)
             OR (word_of_int 0 :: 32 word)) = 65536"
    by simp
  have "fst (setRGB 0 256 0 500 two_pending) = Inr 3 \<and>
        effects (snd (setRGB 0 256 0 500 two_pending)) =
          effects two_pending @ [SocketWrite \<lparr>cmd_id = 3, cmd_method = js ''set_rgb'',
             cmd_params = [JNum 65536, JStr (js ''smooth''), JNum 500]\<rparr>]"
    using h setRGB_no_range_check [of 0 256 0 500 two_pending]
    by (simp add: m v)
  then show ?thesis
    using h by (auto simp: e writes_def)
qed

section \<open>Closing the connection\<close>

text \<open>
  C3. \<open>handleClose\<close> on a session with N pending commands calls \<open>reject\<close> with
  ConnectionClosed once for each of the N entries of the pending table, in the table's
  order, clears their timers, and leaves the table empty. (The N entries belong to N
  different ids, see \<open>queue_wf_run\<close> below.)
\<close>

theorem handleClose_rejects_all_pending:
  "commandQueue (handleClose s) = []
   \<and> effects (handleClose s) =
       effects s @ EmitDisconnected #
         map (\<lambda>(k, entry). Reject (cmd_id entry) ConnectionClosed) (commandQueue s)
   \<and> length (filter (\<lambda>e. \<exists>k. e = Reject k ConnectionClosed)
        (drop (length (effects s)) (effects (handleClose s)))) = length (commandQueue s)
   \<and> timers (handleClose s) = filter (\<lambda>c. c \<notin> snd ` set (commandQueue s)) (timers s)"
proof -
  have e: "effects (handleClose s) =
       effects s @ EmitDisconnected #
         map (\<lambda>(k, entry). Reject (cmd_id entry) ConnectionClosed) (commandQueue s)"
    by (simp add: handleClose_def Let_def effects_fold_reject)
  have f: "filter (\<lambda>e. \<exists>k. e = Reject k ConnectionClosed)
        (map (\<lambda>(k, entry). Reject (cmd_id entry) ConnectionClosed) q) =
        map (\<lambda>(k, entry). Reject (cmd_id entry) ConnectionClosed) q"
    for q :: "(nat \<times> CommandOptions) list"
    by (induction q) (simp_all add: split_beta)
  have n: "length (filter (\<lambda>e. \<exists>k. e = Reject k ConnectionClosed)
        (drop (length (effects s)) (effects (handleClose s)))) = length (commandQueue s)"
    by (simp add: e f)
  have t: "timers (handleClose s) = filter (\<lambda>c. c \<notin> snd ` set (commandQueue s)) (timers s)"
    by (simp add: handleClose_def Let_def timers_fold_reject)
  have q: "commandQueue (handleClose s) = []"
    by (simp add: handleClose_def Let_def)
  show ?thesis using e n t q by blast
qed

text \<open>
  C4, as the code has it. \<open>handleClose\<close> sets the state to disconnected and emits
  \<open>disconnected\<close> first; only then does it reject the pending commands and empty the
  table. Subscribers see the event while every pending command is still in the table.
\<close>

theorem handleClose_order:
  "\<not> connected (handleClose s)
   \<and> take (Suc (length (effects s))) (effects (handleClose s)) = effects s @ [EmitDisconnected]
   \<and> drop (Suc (length (effects s))) (effects (handleClose s)) =
       map (\<lambda>(k, entry). Reject (cmd_id entry) ConnectionClosed) (commandQueue s)
   \<and> commandQueue (handleClose s) = []"
  by (simp add: handleClose_def Let_def effects_fold_reject connected_fold_reject)

text \<open>
  C4 as claimed (pending commands rejected before \<open>disconnected\<close> is surfaced) fails:
  a session connects, sends one command and is closed; the rejection of the command comes
  after the event.
\<close>

theorem handleClose_order_counterexample:
  "effects (run parse_none
      [CallConnect, SocketConnect, CallSend (js ''get_prop'') [], SocketClose] new_Yeelight) =
   [EmitConnected, SocketWrite get_prop_1, EmitDisconnected, Reject 1 ConnectionClosed]"
  by (simp add: run_def new_Yeelight_def connect_def onConnect_def sendCommand_def
      js_increment_def handleClose_def Let_def get_prop_1_def)

section \<open>Command timeouts\<close>



section \<open>The line framer\<close>

lemma utf8_ascii: "\<forall>b \<in> set bs. b < 0x80 \<Longrightarrow> utf8_codepoints Start bs = bs"
  by (induction bs) (simp_all add: utf8_lead_def)

lemma utf16_ascii: "\<forall>b \<in> set bs. b < 0x80 \<Longrightarrow> concat (map utf16 bs) = bs"
  by (induction bs) (simp_all add: utf16_def)

lemma toString_ascii:
  assumes "\<forall>b \<in> set data. b < 0x80"
  shows "toString data = map (of_nat \<circ> unat) data"
proof -
  have "\<forall>b \<in> set (map unat data). b < 0x80"
    using assms by (auto simp: word_less_nat_alt)
  then have "utf8_codepoints Start (map unat data) = map unat data"
    and "concat (map utf16 (map unat data)) = map unat data"
    by (rule utf8_ascii, rule utf16_ascii)
  then show ?thesis
    unfolding toString_def by (simp only: map_map)
qed

lemma toString_append_ascii:
  "\<forall>b \<in> set (a @ b). b < 0x80 \<Longrightarrow> toString (a @ b) = toString a @ toString b"
  by (simp add: toString_ascii)

lemma handleResponse_buffer_update:
  "handleResponse response (s\<lparr>buffer := b\<rparr>) = (handleResponse response s)\<lparr>buffer := b\<rparr>"
  by (simp add: handleResponse_def emit_def reject_def resolve_def clearTimeout_def Let_def
      split: sum.splits option.splits prod.splits bool.splits)

lemma handleLine_buffer_update:
  "handleLine parse line (s\<lparr>buffer := b\<rparr>) = (handleLine parse line s)\<lparr>buffer := b\<rparr>"
  by (simp add: handleLine_def emit_def handleResponse_buffer_update
      split: option.splits bool.splits)

lemma indexOf_None: "c \<notin> set xs \<Longrightarrow> indexOf xs c = None"
  by (simp add: indexOf_def)

lemma indexOf_first: "c \<notin> set l \<Longrightarrow> indexOf (l @ c # rest) c = Some (length l)"
  by (induction l) (auto simp: indexOf_def)

lemma indexOf_split:
  assumes "indexOf xs c = Some i"
  shows "xs = take i xs @ c # drop (Suc i) xs \<and> c \<notin> set (take i xs)"
proof -
  from assms have m: "c \<in> set xs" and i: "i = length (takeWhile (\<lambda>x. x \<noteq> c) xs)"
    by (auto simp: indexOf_def split: if_splits)
  have t: "take i xs = takeWhile (\<lambda>x. x \<noteq> c) xs"
    unfolding i by (rule takeWhile_eq_take [symmetric])
  have "dropWhile (\<lambda>x. x \<noteq> c) xs \<noteq> []" using m by simp
  moreover have "hd (dropWhile (\<lambda>x. x \<noteq> c) xs) = c"
    using m hd_dropWhile [of "\<lambda>x. x \<noteq> c" xs] by auto
  ultimately have d: "dropWhile (\<lambda>x. x \<noteq> c) xs = c # tl (dropWhile (\<lambda>x. x \<noteq> c) xs)"
    by (cases "dropWhile (\<lambda>x. x \<noteq> c) xs") auto
  have d2: "drop i xs = dropWhile (\<lambda>x. x \<noteq> c) xs"
    unfolding i by (rule dropWhile_eq_drop [symmetric])
  have "drop (Suc i) xs = tl (drop i xs)" by (simp add: drop_Suc tl_drop)
  then have "c # drop (Suc i) xs = drop i xs" using d d2 by simp
  then have "xs = take i xs @ c # drop (Suc i) xs" by simp
  moreover have "c \<notin> set (take i xs)"
    unfolding t using set_takeWhileD by fastforce
  ultimately show ?thesis by blast
qed

lemma loop_no_newline:
  "newline \<notin> set (buffer s) \<Longrightarrow> handleData_loop parse s = s"
  by (simp add: handleData_loop.simps [of parse s] indexOf_None)

lemma loop_line:
  assumes "newline \<notin> set l" "buffer s = l @ newline # rest"
  shows "handleData_loop parse s = handleData_loop parse (handleLine parse l (s\<lparr>buffer := rest\<rparr>))"
  using assms by (simp add: handleData_loop.simps [of parse s] indexOf_first)

lemma loop_append:
  "handleData_loop parse (s\<lparr>buffer := buffer s @ t\<rparr>) =
   handleData_loop parse
     ((handleData_loop parse s)\<lparr>buffer := buffer (handleData_loop parse s) @ t\<rparr>)"
proof (induction parse s rule: handleData_loop.induct)
  case (1 parse s)
  show ?case
  proof (cases "indexOf (buffer s) newline")
    case None
    then have "newline \<notin> set (buffer s)"
      by (auto simp: indexOf_def split: if_splits)
    then show ?thesis by (simp add: loop_no_newline)
  next
    case (Some i)
    define l where "l = take i (buffer s)"
    define rest where "rest = drop (Suc i) (buffer s)"
    define s' where "s' = handleLine parse l (s\<lparr>buffer := rest\<rparr>)"
    from indexOf_split [OF Some]
    have b: "buffer s = l @ newline # rest" and nl: "newline \<notin> set l"
      by (simp_all add: l_def rest_def)
    have bs': "buffer s' = rest"
      by (simp add: s'_def buffer_handleLine)
    have lhs: "handleData_loop parse (s\<lparr>buffer := buffer s @ t\<rparr>) =
               handleData_loop parse (s'\<lparr>buffer := buffer s' @ t\<rparr>)"
    proof -
      have "handleData_loop parse (s\<lparr>buffer := buffer s @ t\<rparr>) =
            handleData_loop parse (handleLine parse l (s\<lparr>buffer := buffer s @ t, buffer := rest @ t\<rparr>))"
        by (rule loop_line [OF nl]) (simp add: b)
      also have "handleLine parse l (s\<lparr>buffer := buffer s @ t, buffer := rest @ t\<rparr>) =
                 s'\<lparr>buffer := buffer s' @ t\<rparr>"
        by (simp add: s'_def handleLine_buffer_update buffer_handleLine)
      finally show ?thesis .
    qed
    have rhs: "handleData_loop parse s = handleData_loop parse s'"
      unfolding s'_def by (rule loop_line [OF nl b])
    have ih: "handleData_loop parse (s'\<lparr>buffer := buffer s' @ t\<rparr>) =
          handleData_loop parse
            ((handleData_loop parse s')\<lparr>buffer := buffer (handleData_loop parse s') @ t\<rparr>)"
      using "1.IH" [OF Some] by (simp add: s'_def l_def rest_def)
    show ?thesis by (simp only: lhs rhs ih)
  qed
qed

text \<open>
  Text that arrives in two pieces is handled as the same text arriving in one piece: the
  buffer carries the unfinished line over.
\<close>

lemma handleText_append:
  "handleText parse (a @ b) s = handleText parse b (handleText parse a s)"
proof -
  have "handleText parse (a @ b) s =
        handleData_loop parse ((s\<lparr>buffer := buffer s @ a\<rparr>)\<lparr>buffer := buffer (s\<lparr>buffer := buffer s @ a\<rparr>) @ b\<rparr>)"
    by (simp add: handleText_def)
  also have "\<dots> = handleText parse b (handleText parse a s)"
    unfolding handleText_def by (rule loop_append)
  finally show ?thesis .
qed

lemma handleData_additive:
  "toString (a @ b) = toString a @ toString b \<Longrightarrow>
   handleData parse (a @ b) s = handleData parse b (handleData parse a s)"
  by (simp add: handleData_def handleText_append)

text \<open>
  For chunks of ASCII bytes, where decoding chunk by chunk is decoding the whole, feeding
  the chunks one after the other is feeding their concatenation.
\<close>

lemma handleData_chunks_ascii:
  "\<forall>c \<in> set (chunk # chunks). \<forall>b \<in> set c. b < 0x80 \<Longrightarrow>
   fold (handleData parse) (chunk # chunks) s = handleData parse (concat (chunk # chunks)) s"
proof (induction chunks arbitrary: chunk s)
  case Nil
  then show ?case by simp
next
  case (Cons c cs)
  have "fold (handleData parse) (chunk # c # cs) s =
        fold (handleData parse) (c # cs) (handleData parse chunk s)" by simp
  also have "\<dots> = handleData parse (concat (c # cs)) (handleData parse chunk s)"
    using Cons.prems by (intro Cons.IH) simp
  also have "\<dots> = handleData parse (chunk @ concat (c # cs)) s"
  proof -
    have "\<forall>b \<in> set (chunk @ concat (c # cs)). b < 0x80"
      using Cons.prems by auto
    then have "toString (chunk @ concat (c # cs)) = toString chunk @ toString (concat (c # cs))"
      by (rule toString_append_ascii)
    then show ?thesis by (rule handleData_additive [symmetric])
  qed
  finally show ?case by simp
qed

text \<open>
  C5. For bytes in general the claim fails in the code: \<open>handleData\<close> decodes each chunk
  on its own, so a character whose UTF-8 bytes fall into two chunks is decoded as two
  replacement characters. The line \<open>{"method":"X"}\<close>, where \<open>X\<close> is the character
  U+00E9 with the bytes \<open>C3 A9\<close>, gives a notification with the name U+00E9 when it is
  delivered whole; split between \<open>C3\<close> and \<open>A9\<close> it gives a notification with the
  name U+FFFD U+FFFD.
\<close>

theorem handleData_split_inside_character:
  \<open>effects (handleData parse_method_only
      (ascii ''{"method":"'' @ [0xC3, 0xA9] @ ascii ''"}'' @ [0x0A]) new_Yeelight) =
     [EmitNotification (JObj [(js ''method'', JStr [0xE9])])]
   \<and> effects (handleData parse_method_only ([0xA9] @ ascii ''"}'' @ [0x0A])
       (handleData parse_method_only (ascii ''{"method":"'' @ [0xC3]) new_Yeelight)) =
     [EmitNotification (JObj [(js ''method'', JStr [0xFFFD, 0xFFFD])])]\<close>
  by (simp add: handleData_def handleText_def toString_def utf8_lead_def utf16_def ascii_def
      handleData_loop.simps indexOf_def newline_def handleLine_def parse_method_only_def
      in_op_def js_def new_Yeelight_def emit_def Let_def)

section \<open>Lines that are not valid messages\<close>

lemma handleLine_SyntaxError:
  "parse line = None \<Longrightarrow> handleLine parse line s = emit (LoggerError SyntaxError) s"
  by (simp add: handleLine_def)

lemma handleLine_primitive:
  "parse line = Some v \<Longrightarrow> is_primitive v \<Longrightarrow>
   handleLine parse line s = emit (LoggerError TypeError) s"
  by (cases v) (simp_all add: handleLine_def is_primitive_def in_op_def)

lemma handleLine_neither_shape:
  "parse line = Some v \<Longrightarrow> neither_shape v \<Longrightarrow> handleLine parse line s = s"
  by (cases v) (simp_all add: handleLine_def neither_shape_def in_op_def)

lemma handleText_line:
  assumes "newline \<notin> set (buffer s)" "newline \<notin> set l"
  shows "handleText parse (l @ newline # rest) s =
         handleData_loop parse (handleLine parse (buffer s @ l) (s\<lparr>buffer := rest\<rparr>))"
proof -
  have "newline \<notin> set (buffer s @ l)" using assms by simp
  then have "handleData_loop parse (s\<lparr>buffer := buffer s @ l @ newline # rest\<rparr>) =
        handleData_loop parse (handleLine parse (buffer s @ l)
          (s\<lparr>buffer := buffer s @ l @ newline # rest, buffer := rest\<rparr>))"
    by (rule loop_line) simp
  then show ?thesis by (simp add: handleText_def)
qed

lemma handleText_empty_buffer:
  "buffer s = [] \<Longrightarrow> handleText parse text s = handleData_loop parse (s\<lparr>buffer := text\<rparr>)"
  by (simp add: handleText_def)

lemma emit_buffer_update: "(emit e (s\<lparr>buffer := a\<rparr>))\<lparr>buffer := b\<rparr> = emit e (s\<lparr>buffer := b\<rparr>)"
  by (simp add: emit_def)

text \<open>
  C6, as the code has it. Let a complete line arrive (the text \<open>l\<close> after what the buffer
  holds, then a newline, then \<open>rest\<close>). If the line does not parse, or parses to a value
  that is no object, one error is logged; if it parses to an object or array with neither
  a \<open>method\<close> nor an \<open>id\<close> key, nothing is logged. In each case nothing else of the session
  changes, and \<open>rest\<close> is handled as if it had arrived on an empty buffer.
\<close>

theorem invalid_line_discarded:
  assumes "newline \<notin> set (buffer s)" and "newline \<notin> set l"
  shows "(parse (buffer s @ l) = None \<longrightarrow>
            handleText parse (l @ newline # rest) s =
            handleText parse rest (emit (LoggerError SyntaxError) (s\<lparr>buffer := []\<rparr>)))
       \<and> (\<forall>v. parse (buffer s @ l) = Some v \<and> is_primitive v \<longrightarrow>
            handleText parse (l @ newline # rest) s =
            handleText parse rest (emit (LoggerError TypeError) (s\<lparr>buffer := []\<rparr>)))
       \<and> (\<forall>v. parse (buffer s @ l) = Some v \<and> neither_shape v \<longrightarrow>
            handleText parse (l @ newline # rest) s = handleText parse rest (s\<lparr>buffer := []\<rparr>))"
proof -
  note line = handleText_line [OF assms, of parse rest]
  have logged: "handleText parse rest (emit e (s\<lparr>buffer := []\<rparr>)) =
                handleData_loop parse (emit e (s\<lparr>buffer := rest\<rparr>))" for e
    by (simp add: handleText_empty_buffer emit_buffer_update)
  have silent: "handleText parse rest (s\<lparr>buffer := []\<rparr>) = handleData_loop parse (s\<lparr>buffer := rest\<rparr>)"
    by (simp add: handleText_empty_buffer)
  have a: "parse (buffer s @ l) = None \<longrightarrow>
            handleText parse (l @ newline # rest) s =
            handleText parse rest (emit (LoggerError SyntaxError) (s\<lparr>buffer := []\<rparr>))"
    unfolding line logged by (simp add: handleLine_SyntaxError)
  have b: "\<forall>v. parse (buffer s @ l) = Some v \<and> is_primitive v \<longrightarrow>
            handleText parse (l @ newline # rest) s =
            handleText parse rest (emit (LoggerError TypeError) (s\<lparr>buffer := []\<rparr>))"
    unfolding line logged by (simp add: handleLine_primitive)
  have c: "\<forall>v. parse (buffer s @ l) = Some v \<and> neither_shape v \<longrightarrow>
            handleText parse (l @ newline # rest) s = handleText parse rest (s\<lparr>buffer := []\<rparr>)"
    unfolding line silent by (simp add: handleLine_neither_shape)
  show ?thesis using a b c by blast
qed

theorem invalid_line_discarded_witness:
  "newline \<notin> set (buffer two_pending) \<and> newline \<notin> set (js ''oops'')
   \<and> parse_literals (buffer two_pending @ js ''oops'') = None
   \<and> handleText parse_literals (js ''oops'' @ newline # js ''{}'') two_pending =
       handleText parse_literals (js ''{}'') (emit (LoggerError SyntaxError) two_pending)
   \<and> parse_literals (buffer two_pending @ js ''null'') = Some JNull \<and> is_primitive JNull
   \<and> handleText parse_literals (js ''null'' @ newline # js ''{}'') two_pending =
       handleText parse_literals (js ''{}'') (emit (LoggerError TypeError) two_pending)
   \<and> parse_literals (buffer two_pending @ js ''{}'') = Some (JObj []) \<and> neither_shape (JObj [])
   \<and> handleText parse_literals (js ''{}'' @ newline # js ''1'') two_pending =
       handleText parse_literals (js ''1'') two_pending"
proof -
  have b: "buffer two_pending = []" "two_pending\<lparr>buffer := []\<rparr> = two_pending"
    by (simp_all add: two_pending_def)
  have h1: "newline \<notin> set (buffer two_pending)" by (simp add: b)
  have h2: "newline \<notin> set (js ''oops'')" "newline \<notin> set (js ''null'')" "newline \<notin> set (js ''{}'')"
    by (simp_all add: js_def newline_def)
  have p: "parse_literals (buffer two_pending @ js ''oops'') = None"
    "parse_literals (buffer two_pending @ js ''null'') = Some JNull"
    "parse_literals (buffer two_pending @ js ''{}'') = Some (JObj [])"
    by (simp_all add: b parse_literals_def js_def)
  have k: "is_primitive JNull" "neither_shape (JObj [])"
    by (simp_all add: is_primitive_def neither_shape_def)
  show ?thesis
    using h1 h2 p k
      invalid_line_discarded [OF h1 h2(1), of parse_literals "js ''{}''"]
      invalid_line_discarded [OF h1 h2(2), of parse_literals "js ''{}''"]
      invalid_line_discarded [OF h1 h2(3), of parse_literals "js ''1''"]
    by (simp add: b)
qed

text \<open>
  C6 as claimed (every such line is reported to the diagnostic sink) fails: the lines
  \<open>{}\<close> and \<open>[]\<close> decode to neither shape, and the logger is not called.
\<close>

theorem invalid_line_discarded_counterexample:
  "effects (handleData parse_literals (ascii ''{}'' @ [0x0A]) new_Yeelight) = []
   \<and> effects (handleData parse_literals (ascii ''[]'' @ [0x0A]) new_Yeelight) = []"
  by (simp add: handleData_def handleText_def toString_def utf8_lead_def utf16_def ascii_def
      handleData_loop.simps indexOf_def newline_def handleLine_def parse_literals_def
      in_op_def js_def new_Yeelight_def)

section \<open>Command ids\<close>

lemma writes_append [simp]: "writes (a @ b) = writes a @ writes b"
  by (simp add: writes_def)

lemma writes_single [simp]:
  "writes [SocketWrite c] = [c]"
  "writes [EmitConnected] = []"
  "writes [EmitDisconnected] = []"
  "writes [EmitError] = []"
  "writes [EmitNotification v] = []"
  "writes [Resolve k v] = []"
  "writes [Reject k e] = []"
  "writes [LoggerError x] = []"
  "writes [] = []"
  by (simp_all add: writes_def)

lemma filtered_refl [simp]: "filtered q q"
proof -
  have "q = filter (\<lambda>x. True) q" by simp
  then show ?thesis unfolding filtered_def by blast
qed

lemma filtered_trans: "filtered q q' \<Longrightarrow> filtered q' q'' \<Longrightarrow> filtered q q''"
proof -
  assume "filtered q q'" and "filtered q' q''"
  then obtain P Q where "q' = filter P q" and "q'' = filter Q q'"
    unfolding filtered_def by blast
  then have "q'' = filter (\<lambda>x. P x \<and> Q x) q" by simp
  then show ?thesis unfolding filtered_def by blast
qed

lemma filtered_delete [simp]: "filtered q (AList.delete k q)"
  unfolding filtered_def AList.delete_eq by blast

lemma filtered_Nil [simp]: "filtered q []"
proof -
  have "[] = filter (\<lambda>x. False) q" by simp
  then show ?thesis unfolding filtered_def by blast
qed

lemma filtered_keys: "filtered q q' \<Longrightarrow> set (map fst q') \<subseteq> set (map fst q)"
  unfolding filtered_def by auto

lemma filtered_distinct: "filtered q q' \<Longrightarrow> distinct (map fst q) \<Longrightarrow> distinct (map fst q')"
  unfolding filtered_def by (auto simp: distinct_map_filter)

lemma filtered_list_all: "filtered q q' \<Longrightarrow> list_all P q \<Longrightarrow> list_all P q'"
  unfolding filtered_def by (auto simp: list_all_iff)

lemma sends_nothing_refl [simp]: "sends_nothing s s"
  by (simp add: sends_nothing_def)

lemma sends_nothing_trans: "sends_nothing s s' \<Longrightarrow> sends_nothing s' s'' \<Longrightarrow> sends_nothing s s''"
  unfolding sends_nothing_def by (elim conjE, intro conjI) (simp, simp, rule filtered_trans)

lemma sends_nothing_emit [simp]:
  "sends_nothing s (emit (LoggerError x) s)"
  "sends_nothing s (emit (EmitNotification v) s)"
  "sends_nothing s (emit EmitError s)"
  "sends_nothing s (emit EmitConnected s)"
  "sends_nothing s (emit EmitDisconnected s)"
  by (simp_all add: sends_nothing_def allocated_ids_def)

lemma sends_nothing_reject [simp]: "sends_nothing s (reject c e s)"
  by (simp add: sends_nothing_def allocated_ids_def)

lemma sends_nothing_resolve [simp]: "sends_nothing s (resolve c v s)"
  by (simp add: sends_nothing_def allocated_ids_def)

lemma sends_nothing_delete [simp]:
  "sends_nothing s (s\<lparr>commandQueue := AList.delete k (commandQueue s)\<rparr>)"
  by (simp add: sends_nothing_def allocated_ids_def)

lemma sends_nothing_handleResponse: "sends_nothing s (handleResponse response s)"
proof -
  have m: "messageId (handleResponse response s) = messageId s"
    by (simp add: handleResponse_def Let_def
        split: sum.splits option.splits prod.splits bool.splits)
  have w: "writes (effects (handleResponse response s)) = writes (effects s)"
    by (simp add: handleResponse_def Let_def
        split: sum.splits option.splits prod.splits bool.splits)
  have q: "filtered (commandQueue s) (commandQueue (handleResponse response s))"
    by (simp add: handleResponse_def Let_def
        split: sum.splits option.splits prod.splits bool.splits)
  show ?thesis
    unfolding sends_nothing_def allocated_ids_def using m w q by simp
qed

lemma sends_nothing_handleLine: "sends_nothing s (handleLine parse line s)"
  by (auto simp: handleLine_def sends_nothing_handleResponse split: option.splits bool.splits)

lemma sends_nothing_buffer [simp]: "sends_nothing s (s\<lparr>buffer := b\<rparr>)"
  by (simp add: sends_nothing_def allocated_ids_def)

lemma sends_nothing_loop: "sends_nothing s (handleData_loop parse s)"
proof (induction parse s rule: handleData_loop.induct)
  case (1 parse s)
  show ?case
  proof (cases "indexOf (buffer s) newline")
    case None
    then show ?thesis by (simp add: handleData_loop.simps [of parse s])
  next
    case (Some i)
    have "sends_nothing s (handleLine parse (take i (buffer s)) (s\<lparr>buffer := drop (i + 1) (buffer s)\<rparr>))"
      using sends_nothing_buffer sends_nothing_handleLine sends_nothing_trans by blast
    then have "sends_nothing s (handleData_loop parse
        (handleLine parse (take i (buffer s)) (s\<lparr>buffer := drop (i + 1) (buffer s)\<rparr>)))"
      using "1.IH" [OF Some] sends_nothing_trans by blast
    then show ?thesis
      using Some by (simp add: handleData_loop.simps [of parse s])
  qed
qed

lemma sends_nothing_handleData: "sends_nothing s (handleData parse data s)"
  unfolding handleData_def handleText_def
  using sends_nothing_buffer sends_nothing_loop sends_nothing_trans by blast

lemma sends_nothing_fold_reject:
  "sends_nothing s (fold (\<lambda>(k, entry). reject entry e) q s)"
proof (induction q arbitrary: s)
  case Nil
  then show ?case by simp
next
  case (Cons a q)
  obtain k entry where a: "a = (k, entry)" by (cases a)
  have a1: "sends_nothing s (reject entry e s)" by simp
  have a2: "sends_nothing (reject entry e s)
              (fold (\<lambda>(k, entry). reject entry e) q (reject entry e s))"
    by (rule Cons)
  show ?case
    using sends_nothing_trans [OF a1 a2] by (simp add: a)
qed

lemma sends_nothing_handleClose: "sends_nothing s (handleClose s)"
proof -
  let ?s1 = "emit EmitDisconnected (s\<lparr>connected := False\<rparr>)"
  have a: "sends_nothing s ?s1"
    by (simp add: sends_nothing_def allocated_ids_def)
  have b: "sends_nothing ?s1 (fold (\<lambda>(k, entry). reject entry ConnectionClosed) (commandQueue ?s1) ?s1)"
    by (rule sends_nothing_fold_reject)
  have c: "sends_nothing s' (s'\<lparr>commandQueue := []\<rparr>)" for s'
    by (simp add: sends_nothing_def allocated_ids_def)
  show ?thesis
    unfolding handleClose_def Let_def
    using a b c sends_nothing_trans by blast
qed

lemma sends_nothing_step:
  "(\<forall>m p. e \<noteq> CallSend m p) \<Longrightarrow> sends_nothing s (step parse e s)"
proof (cases e)
  case (SocketData d)
  then show ?thesis by (simp add: sends_nothing_handleData)
next
  case SocketClose
  then show ?thesis by (simp add: sends_nothing_handleClose)
qed (simp_all add: sends_nothing_def allocated_ids_def connect_def onConnect_def disconnect_def
      handleError_def commandTimeout_def writeFailed_def)

text \<open>
  The pending table of a session is well formed at all times: it has one entry for an id,
  and the entry stored under an id is a command with that id.
\<close>

lemma queue_wf_sends_nothing: "queue_wf s \<Longrightarrow> sends_nothing s s' \<Longrightarrow> queue_wf s'"
  unfolding queue_wf_def sends_nothing_def
  using filtered_distinct filtered_list_all by blast

lemma list_all_update:
  "list_all P q \<Longrightarrow> P (k, v) \<Longrightarrow> list_all P (AList.update k v q)"
  by (induction q) auto

lemma queue_wf_sendCommand: "queue_wf s \<Longrightarrow> queue_wf (snd (sendCommand method params s))"
proof (cases "connected s \<and> socket s")
  case False
  assume "queue_wf s"
  with False show ?thesis by (auto simp: sendCommand_def)
next
  case True
  assume "queue_wf s"
  with True show ?thesis
    by (simp add: sendCommand_connected queue_wf_def distinct_update list_all_update)
qed

lemma queue_wf_step: "queue_wf s \<Longrightarrow> queue_wf (step parse e s)"
proof (cases "\<exists>m p. e = CallSend m p")
  case True
  assume "queue_wf s"
  with True show ?thesis by (auto simp: queue_wf_sendCommand)
next
  case False
  assume "queue_wf s"
  with False show ?thesis
    using queue_wf_sends_nothing sends_nothing_step by blast
qed

lemma queue_wf_run: "queue_wf (run parse evs new_Yeelight)"
proof -
  have "queue_wf s \<Longrightarrow> queue_wf (fold (step parse) evs s)" for s
    by (induction evs arbitrary: s) (simp_all add: queue_wf_step)
  moreover have "queue_wf new_Yeelight"
    by (simp add: queue_wf_def new_Yeelight_def)
  ultimately show ?thesis by (simp add: run_def)
qed

lemma ids_inv_sends_nothing:
  assumes "ids_inv s" and "sends_nothing s s'"
  shows "ids_inv s'"
proof -
  from assms(2) have m: "messageId s' = messageId s"
    and a: "allocated_ids s' = allocated_ids s"
    and q: "set (map fst (commandQueue s')) \<subseteq> set (map fst (commandQueue s))"
    unfolding sends_nothing_def using filtered_keys by blast+
  from assms(1) have i1: "messageId s < 2 ^ 53 \<longrightarrow> allocated_ids s = [1..<Suc (messageId s)]"
    and i2: "\<forall>k \<in> set (map fst (commandQueue s)). k \<le> messageId s"
    unfolding ids_inv_def by blast+
  from q i2 have "\<forall>k \<in> set (map fst (commandQueue s')). k \<le> messageId s"
    by blast
  with i1 show ?thesis
    unfolding ids_inv_def m a by blast
qed

lemma ids_inv_sendCommand: "ids_inv s \<Longrightarrow> ids_inv (snd (sendCommand method params s))"
proof (cases "connected s \<and> socket s")
  case False
  assume "ids_inv s"
  with False show ?thesis by (auto simp: sendCommand_def)
next
  case True
  assume inv: "ids_inv s"
  let ?m = "messageId s"
  have le: "?m \<le> js_increment ?m" by (simp add: js_increment_def)
  have keys: "\<forall>k \<in> set (map fst (AList.update (js_increment ?m) c (commandQueue s))). k \<le> js_increment ?m" for c
    using inv le by (auto simp: ids_inv_def update_keys intro: order_trans)
  have ids: "js_increment ?m < 2 ^ 53 \<longrightarrow>
             allocated_ids s @ [js_increment ?m] = [1..<Suc (js_increment ?m)]"
  proof
    assume b: "js_increment ?m < 2 ^ 53"
    then have lt: "?m < 2 ^ 53" and eq: "js_increment ?m = Suc ?m"
      by (auto simp: js_increment_def split: if_splits)
    from inv lt have "allocated_ids s = [1..<Suc ?m]" by (simp add: ids_inv_def)
    then show "allocated_ids s @ [js_increment ?m] = [1..<Suc (js_increment ?m)]"
      by (simp add: eq)
  qed
  show ?thesis
    using True keys ids
    by (simp add: sendCommand_connected ids_inv_def allocated_ids_def)
qed

lemma ids_inv_step: "ids_inv s \<Longrightarrow> ids_inv (step parse e s)"
proof (cases "\<exists>m p. e = CallSend m p")
  case True
  assume "ids_inv s"
  with True show ?thesis by (auto simp: ids_inv_sendCommand)
next
  case False
  assume "ids_inv s"
  with False show ?thesis
    using ids_inv_sends_nothing sends_nothing_step by blast
qed

lemma ids_inv_run: "ids_inv s \<Longrightarrow> ids_inv (run parse evs s)"
  unfolding run_def by (induction evs arbitrary: s) (simp_all add: ids_inv_step)

lemma ids_inv_new: "ids_inv new_Yeelight"
  by (simp add: ids_inv_def new_Yeelight_def allocated_ids_def)

text \<open>
  C2, as the code has it. The counter belongs to the session object and is never reset,
  so the ids run through all connections of the session: after any sequence of events on
  a new session, as long as the counter is below \<open>2^53\<close>, the ids allocated so far are
  \<open>1, 2, ..., messageId\<close> in this order, strictly increasing, and the id the next send
  allocates is not the id of a pending command.
\<close>

theorem ids_increase_over_session:
  assumes "messageId (run parse evs new_Yeelight) < 2 ^ 53"
  shows "allocated_ids (run parse evs new_Yeelight) =
           [1..<Suc (messageId (run parse evs new_Yeelight))]
       \<and> sorted_wrt (<) (allocated_ids (run parse evs new_Yeelight))
       \<and> js_increment (messageId (run parse evs new_Yeelight))
            \<notin> fst ` set (commandQueue (run parse evs new_Yeelight))"
proof -
  let ?s = "run parse evs new_Yeelight"
  have inv: "ids_inv ?s" by (rule ids_inv_run [OF ids_inv_new])
  with assms have ids: "allocated_ids ?s = [1..<Suc (messageId ?s)]"
    by (simp add: ids_inv_def)
  have "js_increment (messageId ?s) = Suc (messageId ?s)"
    using assms by (simp add: js_increment_def)
  moreover have "\<forall>k \<in> fst ` set (commandQueue ?s). k \<le> messageId ?s"
    using inv by (simp add: ids_inv_def)
  ultimately have fresh: "js_increment (messageId ?s) \<notin> fst ` set (commandQueue ?s)"
    by fastforce
  have "sorted_wrt (<) (allocated_ids ?s)"
    unfolding ids by (rule sorted_wrt_upt)
  with ids fresh show ?thesis by blast
qed

theorem ids_increase_over_session_witness:
  "messageId (run parse_none
      [CallConnect, SocketConnect, CallSend (js ''get_prop'') [], CallSend (js ''toggle'') []]
      new_Yeelight) < 2 ^ 53
   \<and> allocated_ids (run parse_none
      [CallConnect, SocketConnect, CallSend (js ''get_prop'') [], CallSend (js ''toggle'') []]
      new_Yeelight) = [1, 2]
   \<and> 3 \<notin> fst ` set (commandQueue (run parse_none
      [CallConnect, SocketConnect, CallSend (js ''get_prop'') [], CallSend (js ''toggle'') []]
      new_Yeelight))"
proof -
  let ?s = "run parse_none
      [CallConnect, SocketConnect, CallSend (js ''get_prop'') [], CallSend (js ''toggle'') []]
      new_Yeelight"
  have m: "messageId ?s = 2"
    by (simp add: two_pending_reachable two_pending_def)
  have h: "messageId ?s < 2 ^ 53"
    by (simp add: m)
  have u: "[1..<Suc 2] = [1, 2]" "js_increment 2 = 3"
    by (simp_all add: upt_rec js_increment_def)
  from ids_increase_over_session [OF h]
  have "allocated_ids ?s = [1..<Suc (messageId ?s)]"
    and "js_increment (messageId ?s) \<notin> fst ` set (commandQueue ?s)"
    by blast+
  then have "allocated_ids ?s = [1, 2]" and "3 \<notin> fst ` set (commandQueue ?s)"
    by (simp_all only: m u not_False_eq_True)
  with h show ?thesis by simp
qed

text \<open>
  C2 as claimed (ids start at 1 for every connection) fails: a session that sent one
  command, was disconnected and is connected again, with nothing pending, gives its next
  command the id 2.
\<close>

theorem ids_restart_counterexample:
  "connected (run parse_none
      [CallConnect, SocketConnect, CallSend (js ''get_prop'') [], CallDisconnect, SocketClose,
       CallConnect, SocketConnect] new_Yeelight)
   \<and> commandQueue (run parse_none
      [CallConnect, SocketConnect, CallSend (js ''get_prop'') [], CallDisconnect, SocketClose,
       CallConnect, SocketConnect] new_Yeelight) = []
   \<and> fst (sendCommand (js ''toggle'') [] (run parse_none
      [CallConnect, SocketConnect, CallSend (js ''get_prop'') [], CallDisconnect, SocketClose,
       CallConnect, SocketConnect] new_Yeelight)) = Inr 2"
  by (simp add: run_def new_Yeelight_def connect_def onConnect_def disconnect_def sendCommand_def
      js_increment_def handleClose_def Let_def)

section \<open>Discovery: cache and live responses\<close>

lemma regex_header_skip:
  "lower c \<noteq> lower k \<Longrightarrow> regex_header (k # key) (c # cs) = regex_header (k # key) cs"
  by (simp add: Let_def)

lemma regex_header_try:
  "lower c = lower k \<Longrightarrow>
   regex_header (k # key) (c # cs) =
     (if map lower (take (Suc (Suc (length key))) cs) = map lower (key @ js '': '') \<and>
         capture (drop (Suc (Suc (length key))) cs) \<noteq> []
      then Some (capture (drop (Suc (Suc (length key))) cs))
      else regex_header (k # key) cs)"
  by (simp add: Let_def)

lemma regex_header_end: "regex_header key [] = None"
  by simp

lemmas regex_eval = regex_header_skip regex_header_try regex_header_end

declare regex_header.simps [simp del]

lemma live_header:
  "regex_header (js ''Location'') live_response = Some (js ''yeelight://10.0.0.5:55443'')"
  "regex_header (js ''name'') live_response = Some (js ''live'')"
  "regex_header (js ''id'') live_response = None"
  "regex_header (js ''model'') live_response = None"
  "regex_header (js ''fw_ver'') live_response = None"
  "regex_header (js ''support'') live_response = None"
  "regex_header (js ''power'') live_response = None"
  by (simp_all add: live_response_def crlf_def js_def lower_def capture_def regex_eval)

lemma live_includes: "js_includes live_response (js ''yeelight'')"
  by (simp add: live_response_def crlf_def js_def)

lemma live_parts:
  "split 0x3A (remove_first (js ''yeelight://'') (js ''yeelight://10.0.0.5:55443'')) =
     [js ''10.0.0.5'', js ''55443'']"
  by (simp add: js_def)

lemma live_parse:
  "parseResponse parseInt_port live_response devices =
     (if map_of devices (js ''10.0.0.5'') = None
      then AList.update (js ''10.0.0.5'') live_bulb devices else devices)"
proof -
  have p: "parseInt_port (Some (js ''55443'')) = Some 55443"
    by (simp add: parseInt_port_def)
  show ?thesis
    unfolding parseResponse_def extractValue_def live_header
    by (simp add: Let_def live_parts p live_bulb_def)
qed

lemma live_bulb_parsed: "liveRecord parseInt_port live_response = Some live_bulb"
  by (simp add: liveRecord_def onMessage_def live_includes live_parse)

lemma keyed_update: "keyed devices \<Longrightarrow> ip device = k \<Longrightarrow> keyed (AList.update k device devices)"
  by (induction devices) (auto simp: keyed_def)

lemma find_values: "keyed devices \<Longrightarrow> find (\<lambda>x. ip x = a) (map snd devices) = map_of devices a"
  by (induction devices) (auto simp: keyed_def)

lemma parseResponse_cases:
  "parseResponse parseInt response devices = devices \<or>
   (\<exists>device. map_of devices (ip device) = None \<and>
      parseResponse parseInt response [] = [(ip device, device)] \<and>
      parseResponse parseInt response devices = AList.update (ip device) device devices)"
  by (simp add: parseResponse_def Let_def split: option.splits)

lemma parseResponse_present:
  "parseResponse parseInt response [] = [(k, device)] \<Longrightarrow> map_of devices k \<noteq> None \<Longrightarrow>
   parseResponse parseInt response devices = devices"
  by (auto simp: parseResponse_def Let_def split: option.splits if_splits)

lemma parseResponse_absent:
  "parseResponse parseInt response [] = [(k, device)] \<Longrightarrow> map_of devices k = None \<Longrightarrow>
   parseResponse parseInt response devices = AList.update k device devices \<and> ip device = k"
  by (auto simp: parseResponse_def Let_def split: option.splits if_splits)

lemma parseResponse_none:
  "parseResponse parseInt response [] = [] \<Longrightarrow> parseResponse parseInt response devices = devices"
  by (auto simp: parseResponse_def Let_def split: option.splits if_splits)

lemma parseResponse_empty_shape:
  "parseResponse parseInt response [] = [] \<or>
   (\<exists>device. parseResponse parseInt response [] = [(ip device, device)])"
  by (simp add: parseResponse_def Let_def split: option.splits)

lemma onMessage_step:
  "map_of (onMessage parseInt response devices) a =
     (case map_of devices a of
        Some device \<Rightarrow> Some device
      | None \<Rightarrow> (case liveRecord parseInt response of
                   None \<Rightarrow> None
                 | Some device \<Rightarrow> if ip device = a then Some device else None))"
proof (cases "js_includes response (js ''yeelight'')")
  case False
  then show ?thesis
    by (simp add: onMessage_def liveRecord_def split: option.splits)
next
  case True
  from parseResponse_empty_shape [of parseInt response]
  show ?thesis
  proof
    assume e: "parseResponse parseInt response [] = []"
    then show ?thesis
      using True by (simp add: onMessage_def liveRecord_def parseResponse_none split: option.splits)
  next
    assume "\<exists>device. parseResponse parseInt response [] = [(ip device, device)]"
    then obtain device where d: "parseResponse parseInt response [] = [(ip device, device)]"
      by blast
    have l: "liveRecord parseInt response = Some device"
      using True d by (simp add: liveRecord_def onMessage_def)
    show ?thesis
    proof (cases "map_of devices (ip device)")
      case None
      from parseResponse_absent [OF d None]
      have "parseResponse parseInt response devices = AList.update (ip device) device devices"
        by blast
      then show ?thesis
        using True None by (auto simp: onMessage_def l update_conv' split: option.splits)
    next
      case (Some x)
      then have "parseResponse parseInt response devices = devices"
        using parseResponse_present [OF d] by simp
      then show ?thesis
        using True Some by (auto simp: onMessage_def l split: option.splits)
    qed
  qed
qed

lemma keyed_onMessage: "keyed devices \<Longrightarrow> keyed (onMessage parseInt response devices)"
  using parseResponse_cases [of parseInt response devices]
  by (auto simp: onMessage_def keyed_update)

lemma keyed_fold_onMessage:
  "keyed devices \<Longrightarrow> keyed (fold (onMessage parseInt) messages devices)"
  by (induction messages arbitrary: devices) (simp_all add: keyed_onMessage)

lemma map_of_fold_onMessage:
  "map_of (fold (onMessage parseInt) messages devices) a =
     (case map_of devices a of
        Some device \<Rightarrow> Some device
      | None \<Rightarrow> find (\<lambda>x. ip x = a) (List.map_filter (liveRecord parseInt) messages))"
proof (induction messages arbitrary: devices)
  case Nil
  then show ?case by (simp add: map_filter_simps split: option.splits)
next
  case (Cons m ms)
  show ?case
    by (simp add: Cons.IH onMessage_step map_filter_simps split: option.splits)
qed

lemma find_snoc:
  "find P (xs @ [x]) = (case find P xs of Some y \<Rightarrow> Some y | None \<Rightarrow> if P x then Some x else None)"
  by (induction xs) simp_all

lemma seed_fold:
  "map_of (fold (\<lambda>device devices. AList.update (ip device) device devices) cachedDevices devices) a =
     (case find (\<lambda>x. ip x = a) (rev cachedDevices) of
        Some device \<Rightarrow> Some device
      | None \<Rightarrow> map_of devices a)"
proof (induction cachedDevices arbitrary: devices)
  case Nil
  then show ?case by simp
next
  case (Cons c cs)
  show ?case
    by (simp add: Cons.IH update_conv' find_snoc split: option.splits)
qed

lemma keyed_seed_fold:
  "keyed devices \<Longrightarrow>
   keyed (fold (\<lambda>device devices. AList.update (ip device) device devices) cachedDevices devices)"
  by (induction cachedDevices arbitrary: devices) (simp_all add: keyed_update)

lemma keyed_Nil: "keyed []"
  by (simp add: keyed_def)

lemma keyed_seedCache: "keyed (seedCache useCache cachedDevices)"
  by (simp add: seedCache_def keyed_seed_fold keyed_Nil)

lemma keyed_ips: "keyed devices \<Longrightarrow> map ip (map snd devices) = map fst devices"
  by (induction devices) (auto simp: keyed_def)

lemma distinct_onMessage:
  "distinct (map fst devices) \<Longrightarrow> distinct (map fst (onMessage parseInt response devices))"
  using parseResponse_cases [of parseInt response devices]
  by (auto simp: onMessage_def distinct_update)

lemma distinct_fold_onMessage:
  "distinct (map fst devices) \<Longrightarrow>
   distinct (map fst (fold (onMessage parseInt) messages devices))"
  by (induction messages arbitrary: devices) (simp_all add: distinct_onMessage)

lemma distinct_seed_fold:
  "distinct (map fst devices) \<Longrightarrow>
   distinct (map fst
     (fold (\<lambda>device devices. AList.update (ip device) device devices) cachedDevices devices))"
  by (induction cachedDevices arbitrary: devices) (simp_all add: distinct_update)

lemma distinct_seedCache: "distinct (map fst (seedCache useCache cachedDevices))"
  by (simp add: seedCache_def distinct_seed_fold)

text \<open>
  C1, as the code has it. With \<open>useCache\<close> the cache fills the result first, and
  \<open>parseResponse\<close> stores a record only under an ip that has none. So the result holds
  exactly one record for an ip, never two: the cached record if the cache has one (the
  last one, should the cache list the ip twice), whatever the live responses say, and
  otherwise the record of the first live response from that ip.
\<close>

theorem discover_cache_first:
  "distinct (map ip (discover parseInt True cachedDevices messages))
   \<and> find (\<lambda>x. ip x = a) (discover parseInt True cachedDevices messages) =
     (case find (\<lambda>x. ip x = a) (rev cachedDevices) of
        Some device \<Rightarrow> Some device
      | None \<Rightarrow> find (\<lambda>x. ip x = a) (List.map_filter (liveRecord parseInt) messages))"
proof -
  let ?devices = "fold (onMessage parseInt) messages (seedCache True cachedDevices)"
  have k: "keyed ?devices"
    by (rule keyed_fold_onMessage) (rule keyed_seedCache)
  have "distinct (map fst ?devices)"
    by (rule distinct_fold_onMessage) (rule distinct_seedCache)
  then have d: "distinct (map ip (discover parseInt True cachedDevices messages))"
    unfolding discover_def by (simp only: keyed_ips [OF k])
  have "find (\<lambda>x. ip x = a) (discover parseInt True cachedDevices messages) =
        map_of ?devices a"
    unfolding discover_def by (rule find_values) (rule k)
  also have "\<dots> = (case map_of (seedCache True cachedDevices) a of
        Some device \<Rightarrow> Some device
      | None \<Rightarrow> find (\<lambda>x. ip x = a) (List.map_filter (liveRecord parseInt) messages))"
    by (rule map_of_fold_onMessage)
  also have "map_of (seedCache True cachedDevices) a = find (\<lambda>x. ip x = a) (rev cachedDevices)"
    by (simp add: seedCache_def seed_fold split: option.splits)
  finally have f: "find (\<lambda>x. ip x = a) (discover parseInt True cachedDevices messages) =
     (case find (\<lambda>x. ip x = a) (rev cachedDevices) of
        Some device \<Rightarrow> Some device
      | None \<Rightarrow> find (\<lambda>x. ip x = a) (List.map_filter (liveRecord parseInt) messages))" .
  from d f show ?thesis by (rule conjI)
qed

text \<open>
  C1 as claimed (a live response overwrites the cached record of its ip) fails: with
  \<open>cached_bulb\<close> in the cache and a live response from the same ip that carries another
  name, the scan returns the cached record.
\<close>

theorem discover_cache_counterexample:
  "discover parseInt_port True [cached_bulb] [live_response] = [cached_bulb]
   \<and> liveRecord parseInt_port live_response = Some live_bulb
   \<and> ip live_bulb = ip cached_bulb \<and> live_bulb \<noteq> cached_bulb"
proof -
  have c: "ip cached_bulb = js ''10.0.0.5''"
    by (simp add: cached_bulb_def)
  have a: "discover parseInt_port True [cached_bulb] [live_response] = [cached_bulb]"
    by (simp add: discover_def seedCache_def onMessage_def live_includes live_parse c)
  have b: "ip live_bulb = ip cached_bulb \<and> live_bulb \<noteq> cached_bulb"
    by (simp add: live_bulb_def cached_bulb_def js_def)
  show ?thesis using a b live_bulb_parsed by blast
qed

end
